theory Spec2Isabelle
  imports Main "HOL-Library.Sublist"
begin

section \<open>Values of the embedding\<close>

text \<open>
  The development embeds \<^verbatim>\<open>src/main/main.ts\<close>: the routine \<^verbatim>\<open>startDriverBin\<close> and the
  handler of the IPC channel \<^verbatim>\<open>ipc-example\<close>.

  A \<^verbatim>\<open>ChildProcess\<close> object is represented by its identity. An error value is either an
  object made by \<^verbatim>\<open>new Error(msg)\<close> in this file, or an object handed in by the runtime or
  a library, which is represented by the text that string conversion gives for it.
\<close>

type_synonym handle = nat

datatype js_error = Foreign string | NewError string

fun toString :: "js_error \<Rightarrow> string" where
  "toString (Foreign s) = s"
| "toString (NewError m) = (if m = [] then ''Error'' else ''Error: '' @ m)"

text \<open>Decimal text of a number, as a template literal renders it.\<close>

definition digit :: "nat \<Rightarrow> char" where
  "digit d = ''0123456789'' ! d"

fun show_nat :: "nat \<Rightarrow> string" where
  "show_nat n = (if n < 10 then [digit n] else show_nat (n div 10) @ [digit (n mod 10)])"

declare show_nat.simps [simp del]

definition show_int :: "int \<Rightarrow> string" where
  "show_int i = (if i < 0 then CHR ''-'' # show_nat (nat (- i)) else show_nat (nat i))"

text \<open>The exit code of a child process is a number, or \<^verbatim>\<open>null\<close> when a signal ended it.\<close>

definition show_code :: "int option \<Rightarrow> string" where
  "show_code code = (case code of None \<Rightarrow> ''null'' | Some c \<Rightarrow> show_int c)"

text \<open>\<^verbatim>\<open>String.prototype.indexOf\<close>: the first position of the pattern, or \<open>-1\<close>.\<close>

fun indexOf_from :: "nat \<Rightarrow> string \<Rightarrow> string \<Rightarrow> int" where
  "indexOf_from i [] pat = (if pat = [] then int i else - 1)"
| "indexOf_from i (c # cs) pat =
     (if prefix pat (c # cs) then int i else indexOf_from (Suc i) cs pat)"

definition indexOf :: "string \<Rightarrow> string \<Rightarrow> int" where
  "indexOf s pat = indexOf_from 0 s pat"

section \<open>The driver supervisor\<close>

text \<open>
  The set-up in the \<^verbatim>\<open>try\<close> block either completes with the process object that \<^verbatim>\<open>spawn\<close>
  returned, or throws before a handler is registered: \<^verbatim>\<open>spawn\<close> itself throws, or it
  returns a process without streams and the first registration throws. The options record
  given to \<^verbatim>\<open>waitPort\<close> is kept as it is written.
\<close>

datatype spawn_result = Spawned handle | SpawnThrows js_error

record wait_params =
  port :: nat
  host :: string
  timeout :: nat

datatype probe_status = NotStarted | Waiting wait_params | Finished

datatype settle_call = Resolve handle | Reject js_error

datatype log_entry = LogDebug "string list" | ConsoleLog "string list"

text \<open>
  The closure variables of one invocation: the guard \<^verbatim>\<open>isFirst\<close>, the buffer \<^verbatim>\<open>stderr\<close>, the
  promise returned by \<^verbatim>\<open>waitPort\<close>; and what the invocation did: every call of \<^verbatim>\<open>resolve\<close>
  or \<^verbatim>\<open>reject\<close> in order, and every line it logged.
\<close>

record driver_state =
  isFirst :: bool
  stderr :: string
  probe :: probe_status
  calls :: "settle_call list"
  console :: "log_entry list"

definition initial :: driver_state where
  "initial = \<lparr>isFirst = True, stderr = [], probe = NotStarted, calls = [], console = []\<rparr>"

definition resolve :: "handle \<Rightarrow> driver_state \<Rightarrow> driver_state" where
  "resolve h s = s\<lparr>calls := calls s @ [Resolve h]\<rparr>"

definition reject :: "js_error \<Rightarrow> driver_state \<Rightarrow> driver_state" where
  "reject e s = s\<lparr>calls := calls s @ [Reject e]\<rparr>"

definition console_log :: "string list \<Rightarrow> driver_state \<Rightarrow> driver_state" where
  "console_log args s = s\<lparr>console := console s @ [ConsoleLog args]\<rparr>"

definition log_debug :: "string list \<Rightarrow> driver_state \<Rightarrow> driver_state" where
  "log_debug args s = s\<lparr>console := console s @ [LogDebug args]\<rparr>"

text \<open>
  What \<^verbatim>\<open>waitPort\<close> is called with. The call only starts the probe; its promise settles
  in a later turn of the event loop.
\<close>

definition waitPort :: "wait_params \<Rightarrow> driver_state \<Rightarrow> driver_state" where
  "waitPort params s = s\<lparr>probe := Waiting params\<rparr>"

text \<open>The handler of \<^verbatim>\<open>program.stdout.on('data')\<close>.\<close>

definition stdout_on_data :: "nat \<Rightarrow> string \<Rightarrow> driver_state \<Rightarrow> driver_state" where
  "stdout_on_data prt data s =
     (let s1 = s\<lparr>stderr := stderr s @ data\<rparr>;
          s2 = log_debug [''WEBDRIVER STDERR'', stderr s1] s1
      in if \<not> isFirst s2 then s2
         else waitPort \<lparr>port = prt, host = ''localhost'', timeout = 3000\<rparr>
                (s2\<lparr>isFirst := False\<rparr>))"

text \<open>The two continuations attached to the promise of \<^verbatim>\<open>waitPort\<close>.\<close>

definition waitPort_then :: "handle \<Rightarrow> driver_state \<Rightarrow> driver_state" where
  "waitPort_then program s = resolve program s"

definition waitPort_catch :: "js_error \<Rightarrow> driver_state \<Rightarrow> driver_state" where
  "waitPort_catch err s =
     reject (NewError (''Failed to start ChromeDriver: '' @ toString err))
       (console_log [toString err] s)"

text \<open>The handler of \<^verbatim>\<open>program.stderr.on('data')\<close>.\<close>

definition stderr_on_data :: "string \<Rightarrow> driver_state \<Rightarrow> driver_state" where
  "stderr_on_data data s =
     (let s1 = s\<lparr>stderr := stderr s @ data\<rparr>
      in console_log [''WEBDRIVER STDERR'', stderr s1] s1)"

text \<open>The handler of \<^verbatim>\<open>program.on('error')\<close>.\<close>

definition on_error :: "js_error \<Rightarrow> driver_state \<Rightarrow> driver_state" where
  "on_error err s =
     (let s1 = console_log [''WEBDRIVER ERROR'', toString err] s
      in if \<not> isFirst s1 then s1
         else reject err (s1\<lparr>isFirst := False\<rparr>))"

text \<open>The handler of \<^verbatim>\<open>program.on('close')\<close>.\<close>

definition on_close :: "driver_state \<Rightarrow> driver_state" where
  "on_close s = console_log [''BROWSER WINDOW CLOSED''] s"

text \<open>The handler of \<^verbatim>\<open>program.on('exit')\<close>.\<close>

definition on_exit :: "handle \<Rightarrow> int option \<Rightarrow> driver_state \<Rightarrow> driver_state" where
  "on_exit program code s =
     (if \<not> isFirst s then s
      else
        let s1 = s\<lparr>isFirst := False\<rparr>
        in if code = Some 0 then
             (if indexOf (stderr s1) ''Error:'' = 0
              then reject (NewError (stderr s1)) (console_log [stderr s1] s1)
              else resolve program s1)
           else reject (NewError (''Exit code: '' @ show_code code))
                  (console_log [''Exit code: '' @ show_code code] s1))"

text \<open>
  What the event loop can deliver to one invocation: a chunk on either stream (given as the
  text \<^verbatim>\<open>data.toString('utf8')\<close>), the three process events, and the settlement of the
  promise of \<^verbatim>\<open>waitPort\<close>. That promise exists only once the probe has been started and
  settles once, so its continuations run only while the probe is waiting. The library
  \<^verbatim>\<open>wait-port\<close> fulfils the promise with a flag: \<open>True\<close> when the port accepted a connection
  within the timeout, \<open>False\<close> when the timeout elapsed. It rejects the promise when the
  options are invalid or the connection fails with an error other than a refusal. The
  continuation given to \<^verbatim>\<open>then\<close> takes no argument, so the flag never reaches it.
\<close>

datatype event =
    StdoutData string
  | StderrData string
  | ProcError js_error
  | Close
  | Exit "int option"
  | WaitPortFulfilled bool
  | WaitPortRejected js_error

fun handle_event :: "handle \<Rightarrow> nat \<Rightarrow> driver_state \<Rightarrow> event \<Rightarrow> driver_state" where
  "handle_event program prt s (StdoutData data) = stdout_on_data prt data s"
| "handle_event program prt s (StderrData data) = stderr_on_data data s"
| "handle_event program prt s (ProcError err) = on_error err s"
| "handle_event program prt s Close = on_close s"
| "handle_event program prt s (Exit code) = on_exit program code s"
| "handle_event program prt s (WaitPortFulfilled opn) =
     (case probe s of
        Waiting params \<Rightarrow> waitPort_then program (s\<lparr>probe := Finished\<rparr>)
      | _ \<Rightarrow> s)"
| "handle_event program prt s (WaitPortRejected err) =
     (case probe s of
        Waiting params \<Rightarrow> waitPort_catch err (s\<lparr>probe := Finished\<rparr>)
      | _ \<Rightarrow> s)"

text \<open>The handlers run to completion, one event after the other, from the initial closure.\<close>

definition run :: "handle \<Rightarrow> nat \<Rightarrow> event list \<Rightarrow> driver_state" where
  "run program prt evs = foldl (handle_event program prt) initial evs"

text \<open>
  \<^verbatim>\<open>startDriverBin\<close>: the executor spawns the binary and registers the handlers; when
  this set-up throws, the \<^verbatim>\<open>catch\<close> block logs and rejects, and no handler exists.
\<close>

definition startDriverBin ::
  "(string \<Rightarrow> string list \<Rightarrow> spawn_result) \<Rightarrow> string \<Rightarrow> nat \<Rightarrow> event list \<Rightarrow> driver_state" where
  "startDriverBin spawn bin prt evs =
     (case spawn bin [''--port='' @ show_nat prt] of
        Spawned program \<Rightarrow> run program prt evs
      | SpawnThrows err \<Rightarrow> reject err (console_log [toString err] initial))"

text \<open>The promise: the first call of \<^verbatim>\<open>resolve\<close> or \<^verbatim>\<open>reject\<close> settles it, later calls do nothing.\<close>

datatype 'a promise = Pending | Fulfilled 'a | Rejected js_error

fun promise_of :: "settle_call list \<Rightarrow> handle promise" where
  "promise_of [] = Pending"
| "promise_of (Resolve h # _) = Fulfilled h"
| "promise_of (Reject e # _) = Rejected e"

section \<open>The handler of the channel \<^verbatim>\<open>ipc-example\<close>\<close>

text \<open>
  The handler is an \<^verbatim>\<open>async\<close> function with three \<^verbatim>\<open>await\<close>s. An awaited promise that
  stays pending suspends the function for good; one that rejects throws at the \<^verbatim>\<open>await\<close>.
  Only the two calls of the automation library stand inside the \<^verbatim>\<open>try\<close> block. The
  promises of that library are given by their final state: that of \<^verbatim>\<open>webdriverio.remote\<close>, and
  that of \<^verbatim>\<open>browser.executeAsync\<close>, which is awaited only when the first is fulfilled.
\<close>

type_synonym browser = nat

record ipc_state =
  replies :: "(string \<times> string) list"
  ipc_console :: "log_entry list"
  returned :: "unit promise"

definition webdriver_block :: "browser promise \<Rightarrow> string promise \<Rightarrow> string promise" where
  "webdriver_block remote executeAsync =
     (case remote of
        Pending \<Rightarrow> Pending
      | Rejected e \<Rightarrow> Rejected e
      | Fulfilled browser \<Rightarrow> executeAsync)"

definition ipc_example ::
  "(string \<Rightarrow> string list \<Rightarrow> spawn_result) \<Rightarrow> string \<Rightarrow> event list \<Rightarrow>
     browser promise \<Rightarrow> string promise \<Rightarrow> ipc_state" where
  "ipc_example spawn bin evs remote executeAsync =
     (case promise_of (calls (startDriverBin spawn bin 4445 evs)) of
        Pending \<Rightarrow> \<lparr>replies = [], ipc_console = [], returned = Pending\<rparr>
      | Rejected e \<Rightarrow> \<lparr>replies = [], ipc_console = [], returned = Rejected e\<rparr>
      | Fulfilled driver \<Rightarrow>
          (case webdriver_block remote executeAsync of
             Pending \<Rightarrow> \<lparr>replies = [], ipc_console = [], returned = Pending\<rparr>
           | Rejected e \<Rightarrow>
               \<lparr>replies = [(''ipc-example'', ''pong'')],
                ipc_console = [ConsoleLog [''ERROR IN WEBDRIVER'', toString e]],
                returned = Fulfilled ()\<rparr>
           | Fulfilled userAgent \<Rightarrow>
               \<lparr>replies = [(''ipc-example'', ''pong'')], ipc_console = [],
                returned = Fulfilled ()\<rparr>))"

section \<open>Notions used to state the properties\<close>

text \<open>
  The signals that pass the guard: a chunk on standard output, a process error, a process
  exit. Chunks on standard error and the close event never read the guard.
\<close>

fun meaningful :: "event \<Rightarrow> bool" where
  "meaningful (StdoutData _) = True"
| "meaningful (ProcError _) = True"
| "meaningful (Exit _) = True"
| "meaningful _ = False"

text \<open>The events of the four observed sources, as opposed to the settlement of the probe.\<close>

fun from_process :: "event \<Rightarrow> bool" where
  "from_process (WaitPortFulfilled _) = False"
| "from_process (WaitPortRejected _) = False"
| "from_process _ = True"

fun probe_settled :: "event \<Rightarrow> bool" where
  "probe_settled (WaitPortFulfilled _) = True"
| "probe_settled (WaitPortRejected _) = True"
| "probe_settled _ = False"

fun is_stdout :: "event \<Rightarrow> bool" where
  "is_stdout (StdoutData _) = True"
| "is_stdout _ = False"

text \<open>The text an event contributes: of either stream, and of standard error alone.\<close>

fun chunk_text :: "event \<Rightarrow> string" where
  "chunk_text (StdoutData d) = d"
| "chunk_text (StderrData d) = d"
| "chunk_text _ = []"

fun stderr_text :: "event \<Rightarrow> string" where
  "stderr_text (StderrData d) = d"
| "stderr_text _ = []"

text \<open>What the first settlement of the probe in a sequence of events asks for.\<close>

fun probe_outcome :: "handle \<Rightarrow> event list \<Rightarrow> settle_call list" where
  "probe_outcome program [] = []"
| "probe_outcome program (WaitPortFulfilled opn # evs) = [Resolve program]"
| "probe_outcome program (WaitPortRejected err # evs) =
     [Reject (NewError (''Failed to start ChromeDriver: '' @ toString err))]"
| "probe_outcome program (ev # evs) = probe_outcome program evs"

text \<open>
  Whether a sequence of events holds a signal that settles: a process error or an exit as
  first meaningful signal, or a first chunk on standard output followed by the settlement
  of the probe.
\<close>

fun settles :: "event list \<Rightarrow> bool" where
  "settles [] = False"
| "settles (StdoutData d # evs) = list_ex probe_settled evs"
| "settles (ProcError err # evs) = True"
| "settles (Exit code # evs) = True"
| "settles (ev # evs) = settles evs"

text \<open>
  The four causes that are named for a rejection, for the event \<open>ev\<close> delivered in state
  \<open>s\<close> and the error \<open>e\<close>: an exit whose code is a number other than zero; an exit with
  code zero when the buffer begins with the marker; a process error; and the probe of the
  port, started with a timeout of 3000 ms, running into that timeout.
\<close>

definition nonzero_exit :: "event \<Rightarrow> js_error \<Rightarrow> bool" where
  "nonzero_exit ev e =
     (case ev of
        Exit (Some c) \<Rightarrow> c \<noteq> 0 \<and> e = NewError (''Exit code: '' @ show_int c)
      | _ \<Rightarrow> False)"

definition error_text :: "driver_state \<Rightarrow> event \<Rightarrow> js_error \<Rightarrow> bool" where
  "error_text s ev e =
     (ev = Exit (Some 0) \<and> prefix ''Error:'' (stderr s) \<and> e = NewError (stderr s))"

definition spawn_error :: "event \<Rightarrow> js_error \<Rightarrow> bool" where
  "spawn_error ev e = (ev = ProcError e)"

definition port_timeout :: "nat \<Rightarrow> driver_state \<Rightarrow> event \<Rightarrow> bool" where
  "port_timeout prt s ev =
     (ev = WaitPortFulfilled False \<and>
      probe s = Waiting \<lparr>port = prt, host = ''localhost'', timeout = 3000\<rparr>)"

text \<open>
  Two causes as the handlers have them: an exit with anything but the code zero, the code
  \<^verbatim>\<open>null\<close> of a process ended by a signal included; and the rejection of the promise of
  the probe, whatever its error.
\<close>

definition exit_not_zero :: "event \<Rightarrow> js_error \<Rightarrow> bool" where
  "exit_not_zero ev e =
     (case ev of
        Exit code \<Rightarrow> code \<noteq> Some 0 \<and> e = NewError (''Exit code: '' @ show_code code)
      | _ \<Rightarrow> False)"

definition probe_rejected :: "nat \<Rightarrow> driver_state \<Rightarrow> event \<Rightarrow> js_error \<Rightarrow> bool" where
  "probe_rejected prt s ev e =
     (case ev of
        WaitPortRejected err \<Rightarrow>
          probe s = Waiting \<lparr>port = prt, host = ''localhost'', timeout = 3000\<rparr> \<and>
          e = NewError (''Failed to start ChromeDriver: '' @ toString err)
      | _ \<Rightarrow> False)"

text \<open>A call of \<^verbatim>\<open>spawn\<close> that succeeds and returns the process \<open>h\<close>.\<close>

definition spawned :: "handle \<Rightarrow> string \<Rightarrow> string list \<Rightarrow> spawn_result" where
  "spawned h bin args = Spawned h"

definition exactly_one :: "bool list \<Rightarrow> bool" where
  "exactly_one bs = (length (filter (\<lambda>b. b) bs) = 1)"

text \<open>
  An invocation is unsettled while the guard is set or the probe is waiting. The invariant
  of the closure: the guard is set only before the probe starts, the probe has the options
  written in the source, no call has been made while unsettled and one call afterwards, and
  only the spawned process is ever given to \<^verbatim>\<open>resolve\<close>.
\<close>

definition unsettled :: "driver_state \<Rightarrow> bool" where
  "unsettled s = (case probe s of Waiting p \<Rightarrow> True | _ \<Rightarrow> isFirst s)"

definition consistent :: "handle \<Rightarrow> nat \<Rightarrow> driver_state \<Rightarrow> bool" where
  "consistent program prt s \<longleftrightarrow>
     (isFirst s \<longrightarrow> probe s = NotStarted) \<and>
     (\<forall>p. probe s = Waiting p \<longrightarrow> p = \<lparr>port = prt, host = ''localhost'', timeout = 3000\<rparr>) \<and>
     (if unsettled s then calls s = [] else length (calls s) = 1) \<and>
     (\<forall>h. Resolve h \<in> set (calls s) \<longrightarrow> h = program)"

section \<open>Basic facts\<close>


lemma indexOf_from_range: "indexOf_from i s pat = - 1 \<or> int i \<le> indexOf_from i s pat"
  by (induction i s pat rule: indexOf_from.induct) auto

lemma indexOf_zero: "indexOf s pat = 0 \<longleftrightarrow> prefix pat s"
proof (cases s)
  case Nil
  then show ?thesis by (simp add: indexOf_def)
next
  case (Cons c cs)
  have "indexOf_from (Suc 0) cs pat \<noteq> 0"
    using indexOf_from_range [of "Suc 0" cs pat] by auto
  with Cons show ?thesis by (simp add: indexOf_def)
qed

lemmas handler_defs =
  stdout_on_data_def stderr_on_data_def on_error_def on_close_def on_exit_def
  waitPort_then_def waitPort_catch_def waitPort_def resolve_def reject_def
  console_log_def log_debug_def

lemma run_Nil: "run program prt [] = initial"
  by (simp add: run_def)

lemma run_append:
  "run program prt (xs @ ys) = foldl (handle_event program prt) (run program prt xs) ys"
  by (simp add: run_def)

lemma run_snoc:
  "run program prt (xs @ [ev]) = handle_event program prt (run program prt xs) ev"
  by (simp add: run_def)

lemma consistent_initial: "consistent program prt initial"
  by (simp add: consistent_def initial_def unsettled_def)

lemma consistent_step:
  "consistent program prt s \<Longrightarrow> consistent program prt (handle_event program prt s ev)"
  by (cases ev; cases "probe s")
     (auto simp: consistent_def unsettled_def handler_defs Let_def split: if_splits)

lemma consistent_foldl:
  "consistent program prt s \<Longrightarrow> consistent program prt (foldl (handle_event program prt) s evs)"
  by (induction evs arbitrary: s) (simp_all add: consistent_step)

lemma consistent_run: "consistent program prt (run program prt evs)"
  by (simp add: run_def consistent_foldl consistent_initial)

lemma settled_step:
  "\<not> unsettled s \<Longrightarrow> \<not> unsettled (handle_event program prt s ev) \<and>
     calls (handle_event program prt s ev) = calls s"
  by (cases ev; cases "probe s")
     (auto simp: unsettled_def handler_defs Let_def split: if_splits)

lemma settled_foldl:
  "\<not> unsettled s \<Longrightarrow> \<not> unsettled (foldl (handle_event program prt) s evs) \<and>
     calls (foldl (handle_event program prt) s evs) = calls s"
proof (induction evs arbitrary: s)
  case Nil
  then show ?case by simp
next
  case (Cons ev evs)
  from settled_step [OF Cons.prems, of program prt ev]
  have a: "\<not> unsettled (handle_event program prt s ev)"
    and b: "calls (handle_event program prt s ev) = calls s" by simp_all
  from Cons.IH [OF a] b show ?case by simp
qed

text \<open>Before any meaningful signal, only the buffer and the log change.\<close>

lemma quiet_step:
  assumes "isFirst s" "probe s = NotStarted" "\<not> meaningful ev"
  shows "isFirst (handle_event program prt s ev) \<and>
         probe (handle_event program prt s ev) = NotStarted \<and>
         calls (handle_event program prt s ev) = calls s \<and>
         stderr (handle_event program prt s ev) = stderr s @ stderr_text ev"
  using assms by (cases ev) (auto simp: handler_defs Let_def)

lemma quiet_foldl:
  assumes "isFirst s" "probe s = NotStarted" "\<not> list_ex meaningful evs"
  shows "isFirst (foldl (handle_event program prt) s evs) \<and>
         probe (foldl (handle_event program prt) s evs) = NotStarted \<and>
         calls (foldl (handle_event program prt) s evs) = calls s \<and>
         stderr (foldl (handle_event program prt) s evs) = stderr s @ concat (map stderr_text evs)"
  using assms
proof (induction evs arbitrary: s)
  case Nil
  then show ?case by simp
next
  case (Cons ev evs)
  from Cons.prems have nm: "\<not> meaningful ev" and rest: "\<not> list_ex meaningful evs" by simp_all
  note st = quiet_step [OF Cons.prems(1) Cons.prems(2) nm, of program prt]
  from st have a: "isFirst (handle_event program prt s ev)"
    and b: "probe (handle_event program prt s ev) = NotStarted" by simp_all
  from Cons.IH [OF a b rest] st show ?case by simp
qed

lemma quiet_run:
  assumes "\<not> list_ex meaningful evs"
  shows "isFirst (run program prt evs) \<and> probe (run program prt evs) = NotStarted \<and>
         calls (run program prt evs) = [] \<and>
         stderr (run program prt evs) = concat (map stderr_text evs)"
  using quiet_foldl [of initial evs program prt] assms
  by (simp add: run_def initial_def)

text \<open>Once the guard is cleared it stays cleared; a meaningful signal clears it.\<close>

lemma guard_step:
  "\<not> isFirst s \<or> meaningful ev \<Longrightarrow> \<not> isFirst (handle_event program prt s ev)"
  by (cases ev; cases "probe s") (auto simp: handler_defs Let_def)

lemma guard_foldl:
  "isFirst (foldl (handle_event program prt) s evs) \<Longrightarrow> isFirst s \<and> \<not> list_ex meaningful evs"
proof (induction evs arbitrary: s)
  case Nil
  then show ?case by simp
next
  case (Cons ev evs)
  from Cons.prems have "isFirst (foldl (handle_event program prt) (handle_event program prt s ev) evs)"
    by simp
  from Cons.IH [OF this] have a: "isFirst (handle_event program prt s ev)"
    and b: "\<not> list_ex meaningful evs" by simp_all
  from a guard_step [of s ev program prt] have "isFirst s" "\<not> meaningful ev" by auto
  with b show ?case by simp
qed

lemma guard_run: "isFirst (run program prt evs) \<Longrightarrow> \<not> list_ex meaningful evs"
  using guard_foldl [of program prt initial evs] by (simp add: run_def)

text \<open>While the probe waits, only its settlement makes a call.\<close>

lemma waiting_step:
  assumes "probe s = Waiting p" "\<not> isFirst s" "\<not> probe_settled ev"
  shows "probe (handle_event program prt s ev) = Waiting p \<and>
         \<not> isFirst (handle_event program prt s ev) \<and>
         calls (handle_event program prt s ev) = calls s"
  using assms by (cases ev) (auto simp: handler_defs Let_def)

lemma waiting_foldl:
  assumes "probe s = Waiting p" "\<not> isFirst s" "\<not> list_ex probe_settled evs"
  shows "probe (foldl (handle_event program prt) s evs) = Waiting p \<and>
         \<not> isFirst (foldl (handle_event program prt) s evs) \<and>
         calls (foldl (handle_event program prt) s evs) = calls s"
  using assms
proof (induction evs arbitrary: s)
  case Nil
  then show ?case by simp
next
  case (Cons ev evs)
  from Cons.prems have np: "\<not> probe_settled ev" and rest: "\<not> list_ex probe_settled evs" by simp_all
  note st = waiting_step [OF Cons.prems(1) Cons.prems(2) np, of program prt]
  from st have a: "probe (handle_event program prt s ev) = Waiting p"
    and b: "\<not> isFirst (handle_event program prt s ev)" by simp_all
  from Cons.IH [OF a b rest] st show ?case by simp
qed

lemma waiting_outcome:
  assumes "probe s = Waiting p" "\<not> isFirst s" "calls s = []"
  shows "calls (foldl (handle_event program prt) s evs) = probe_outcome program evs"
  using assms
proof (induction evs arbitrary: s)
  case Nil
  then show ?case by simp
next
  case (Cons ev evs)
  show ?case
  proof (cases "probe_settled ev")
    case True
    let ?s' = "handle_event program prt s ev"
    from True Cons.prems have "\<not> unsettled ?s'"
      by (cases ev) (auto simp: handler_defs unsettled_def)
    from settled_foldl [OF this, of program prt evs]
    have "calls (foldl (handle_event program prt) ?s' evs) = calls ?s'" by simp
    moreover from True Cons.prems have "calls ?s' = probe_outcome program (ev # evs)"
      by (cases ev) (auto simp: handler_defs)
    ultimately show ?thesis by simp
  next
    case False
    note st = waiting_step [OF Cons.prems(1) Cons.prems(2) False, of program prt]
    from st Cons.prems(3) have a: "probe (handle_event program prt s ev) = Waiting p"
      and b: "\<not> isFirst (handle_event program prt s ev)"
      and c: "calls (handle_event program prt s ev) = []" by simp_all
    from False have "probe_outcome program (ev # evs) = probe_outcome program evs"
      by (cases ev) simp_all
    with Cons.IH [OF a b c] show ?thesis by simp
  qed
qed

lemma stdout_first_step:
  assumes "isFirst s"
  shows "probe (handle_event program prt s (StdoutData d)) =
           Waiting \<lparr>port = prt, host = ''localhost'', timeout = 3000\<rparr> \<and>
         \<not> isFirst (handle_event program prt s (StdoutData d)) \<and>
         calls (handle_event program prt s (StdoutData d)) = calls s"
  using assms by (simp add: handler_defs Let_def)


section \<open>The settled value\<close>

text \<open>
  Claim C8. Every call of \<^verbatim>\<open>resolve\<close> made by an invocation of \<^verbatim>\<open>startDriverBin\<close>, and so
  the value the promise is fulfilled with, carries the process that the call of \<^verbatim>\<open>spawn\<close>
  at the start of that invocation returned.
\<close>

theorem resolved_value_is_spawned_process:
  assumes "Resolve h \<in> set (calls (startDriverBin spawn bin prt evs))"
  shows "spawn bin [''--port='' @ show_nat prt] = Spawned h"
proof (cases "spawn bin [''--port='' @ show_nat prt]")
  case (Spawned program)
  with assms have "Resolve h \<in> set (calls (run program prt evs))"
    by (simp add: startDriverBin_def)
  with consistent_run [of program prt evs] have "h = program"
    by (simp add: consistent_def)
  with Spawned show ?thesis by simp
next
  case (SpawnThrows err)
  with assms show ?thesis
    by (simp add: startDriverBin_def reject_def console_log_def initial_def)
qed

text \<open>An instance: a first chunk on standard output, then the probe connects.\<close>

theorem resolved_value_is_spawned_process_witness:
  "Resolve 7 \<in> set (calls (startDriverBin (spawned 7) ''chromedriver'' 4445
        [StdoutData ''Starting ChromeDriver'', WaitPortFulfilled True])) \<and>
   (spawned 7) ''chromedriver'' [''--port='' @ show_nat 4445] = Spawned 7"
proof -
  have h: "Resolve 7 \<in> set (calls (startDriverBin (spawned 7) ''chromedriver'' 4445
        [StdoutData ''Starting ChromeDriver'', WaitPortFulfilled True]))"
    by (simp add: startDriverBin_def spawned_def run_def initial_def handler_defs Let_def)
  from h resolved_value_is_spawned_process [OF h] show ?thesis by simp
qed

section \<open>Exit with code zero as first meaningful signal\<close>

text \<open>
  Claim C2. When no meaningful signal comes before an exit with code zero, the buffer holds
  the chunks of standard error in arrival order. If \<^verbatim>\<open>Error:\<close> is a prefix of the buffer,
  the routine rejects with an error whose message is that buffer; otherwise, also when the
  marker stands further inside, it resolves with the process. Later events change nothing
  of this.
\<close>

theorem clean_exit_inspects_error_text:
  assumes "spawn bin [''--port='' @ show_nat prt] = Spawned program"
    and "\<not> list_ex meaningful pre"
  shows "stderr (startDriverBin spawn bin prt pre) = concat (map stderr_text pre) \<and>
         calls (startDriverBin spawn bin prt (pre @ Exit (Some 0) # post)) =
           (if prefix ''Error:'' (concat (map stderr_text pre))
            then [Reject (NewError (concat (map stderr_text pre)))]
            else [Resolve program])"
proof -
  let ?s = "run program prt pre"
  let ?s' = "handle_event program prt ?s (Exit (Some 0))"
  note q = quiet_run [OF assms(2), of program prt]
  from q have c: "calls ?s' =
      (if prefix ''Error:'' (concat (map stderr_text pre))
       then [Reject (NewError (concat (map stderr_text pre)))]
       else [Resolve program])"
    by (simp add: handler_defs Let_def indexOf_zero)
  from q have "\<not> unsettled ?s'"
    by (simp add: handler_defs Let_def unsettled_def)
  from settled_foldl [OF this, of program prt post]
  have "calls (foldl (handle_event program prt) ?s' post) = calls ?s'" by simp
  moreover have "run program prt (pre @ Exit (Some 0) # post) =
      foldl (handle_event program prt) ?s' post"
    by (simp add: run_def)
  ultimately have "calls (run program prt (pre @ Exit (Some 0) # post)) = calls ?s'" by simp
  with c q assms(1) show ?thesis by (simp add: startDriverBin_def)
qed

text \<open>
  Two instances: the marker arrives in two chunks on standard error and the routine
  rejects; the marker stands behind other text and the routine resolves.
\<close>

theorem clean_exit_inspects_error_text_witness:
  "spawned 7 ''chromedriver'' [''--port='' @ show_nat 4445] = Spawned 7 \<and>
   \<not> list_ex meaningful [StderrData ''Error: '', StderrData ''port in use''] \<and>
   calls (startDriverBin (spawned 7) ''chromedriver'' 4445
     ([StderrData ''Error: '', StderrData ''port in use''] @ Exit (Some 0) # [Close])) =
     [Reject (NewError ''Error: port in use'')] \<and>
   \<not> list_ex meaningful [StderrData ''Warning: '', StderrData ''Error: none''] \<and>
   calls (startDriverBin (spawned 7) ''chromedriver'' 4445
     ([StderrData ''Warning: '', StderrData ''Error: none''] @ Exit (Some 0) # [Close])) =
     [Resolve 7]"
proof -
  have a: "spawned 7 ''chromedriver'' [''--port='' @ show_nat 4445] = Spawned 7"
    by (simp add: spawned_def)
  have b: "\<not> list_ex meaningful [StderrData ''Error: '', StderrData ''port in use'']" by simp
  have c: "\<not> list_ex meaningful [StderrData ''Warning: '', StderrData ''Error: none'']" by simp
  note rej = clean_exit_inspects_error_text
    [where spawn = "spawned 7" and bin = "''chromedriver''" and prt = 4445
      and post = "[Close]", OF a b]
  note res = clean_exit_inspects_error_text
    [where spawn = "spawned 7" and bin = "''chromedriver''" and prt = 4445
      and post = "[Close]", OF a c]
  from rej have r1: "calls (startDriverBin (spawned 7) ''chromedriver'' 4445
     ([StderrData ''Error: '', StderrData ''port in use''] @ Exit (Some 0) # [Close])) =
     [Reject (NewError ''Error: port in use'')]" by simp
  from res have r2: "calls (startDriverBin (spawned 7) ''chromedriver'' 4445
     ([StderrData ''Warning: '', StderrData ''Error: none''] @ Exit (Some 0) # [Close])) =
     [Resolve 7]" by simp
  from a b c r1 r2 show ?thesis by blast
qed

section \<open>The first chunk on standard output\<close>

text \<open>
  The first chunk on standard output, with no meaningful signal before it, starts the probe
  of the given port on \<^verbatim>\<open>localhost\<close> with a timeout of 3000 ms and leaves the promise
  pending. When the promise of the probe is fulfilled, with either flag, the routine
  resolves with the spawned process; when it is rejected the routine rejects with an error
  whose message is \<^verbatim>\<open>Failed to start ChromeDriver:\<close> followed by the text of the probe's
  error. Events of the process in between change nothing.
\<close>

lemma first_stdout_chunk_starts_probe:
  assumes "spawn bin [''--port='' @ show_nat prt] = Spawned program"
    and "\<not> list_ex meaningful pre"
    and "\<not> list_ex probe_settled mid"
  shows "probe (startDriverBin spawn bin prt (pre @ StdoutData d # mid)) =
           Waiting \<lparr>port = prt, host = ''localhost'', timeout = 3000\<rparr> \<and>
         promise_of (calls (startDriverBin spawn bin prt (pre @ StdoutData d # mid))) = Pending \<and>
         promise_of (calls (startDriverBin spawn bin prt
             (pre @ StdoutData d # mid @ [WaitPortFulfilled opn]))) = Fulfilled program \<and>
         promise_of (calls (startDriverBin spawn bin prt
             (pre @ StdoutData d # mid @ [WaitPortRejected err]))) =
           Rejected (NewError (''Failed to start ChromeDriver: '' @ toString err))"
proof -
  let ?params = "\<lparr>port = prt, host = ''localhost'', timeout = 3000\<rparr>"
  let ?s0 = "run program prt pre"
  let ?s1 = "handle_event program prt ?s0 (StdoutData d)"
  let ?s2 = "foldl (handle_event program prt) ?s1 mid"
  note q = quiet_run [OF assms(2), of program prt]
  from q have f: "isFirst ?s0" and c0: "calls ?s0 = []" by simp_all
  note st = stdout_first_step [OF f, of program prt d]
  from st have p1: "probe ?s1 = Waiting ?params" and g1: "\<not> isFirst ?s1" by simp_all
  from st c0 have c1: "calls ?s1 = []" by simp
  note w = waiting_foldl [OF p1 g1 assms(3), of program prt]
  from w c1 have p2: "probe ?s2 = Waiting ?params" and c2: "calls ?s2 = []" by simp_all
  have r: "\<And>tl. run program prt (pre @ StdoutData d # mid @ tl) =
      foldl (handle_event program prt) ?s2 tl"
    by (simp add: run_def)
  from r [of "[]"] have r0: "run program prt (pre @ StdoutData d # mid) = ?s2" by simp
  from p2 c2 have "calls (handle_event program prt ?s2 (WaitPortFulfilled opn)) = [Resolve program]"
    by (simp add: handler_defs)
  with r [of "[WaitPortFulfilled opn]"]
  have ok: "calls (run program prt (pre @ StdoutData d # mid @ [WaitPortFulfilled opn])) =
      [Resolve program]" by simp
  from p2 c2 have "calls (handle_event program prt ?s2 (WaitPortRejected err)) =
      [Reject (NewError (''Failed to start ChromeDriver: '' @ toString err))]"
    by (simp add: handler_defs)
  with r [of "[WaitPortRejected err]"]
  have ko: "calls (run program prt (pre @ StdoutData d # mid @ [WaitPortRejected err])) =
      [Reject (NewError (''Failed to start ChromeDriver: '' @ toString err))]" by simp
  from assms(1) r0 p2 c2 ok ko show ?thesis
    by (simp add: startDriverBin_def)
qed

text \<open>
  Claim C3 says that a timeout of the probe rejects the promise. The driver writes its
  first chunk on standard output and the probe starts with the port 4445, the host
  \<^verbatim>\<open>localhost\<close> and the timeout 3000; the port does not open, the 3000 ms elapse and the
  promise of the probe is fulfilled with the flag \<open>False\<close>. The routine does not reject: it
  resolves with the spawned process, as it does when the port has opened.
\<close>

theorem probe_timeout_resolves:
  "probe (startDriverBin (spawned 7) ''chromedriver'' 4445 [StdoutData ''Starting ChromeDriver'']) =
     Waiting \<lparr>port = 4445, host = ''localhost'', timeout = 3000\<rparr> \<and>
   promise_of (calls (startDriverBin (spawned 7) ''chromedriver'' 4445
      [StdoutData ''Starting ChromeDriver'', WaitPortFulfilled False])) = Fulfilled 7 \<and>
   promise_of (calls (startDriverBin (spawned 7) ''chromedriver'' 4445
      [StdoutData ''Starting ChromeDriver'', WaitPortFulfilled True])) = Fulfilled 7"
  by (simp add: startDriverBin_def spawned_def run_def initial_def handler_defs Let_def)

section \<open>After a first chunk on standard output\<close>

lemma probe_outcome_filter:
  "probe_outcome program (filter probe_settled evs) = probe_outcome program evs"
  by (induction program evs rule: probe_outcome.induct) simp_all

text \<open>
  Claim C10. When a chunk on standard output is the first meaningful signal, its handler
  has cleared the guard by the time the probe waits. Whatever events follow, the calls of
  \<^verbatim>\<open>resolve\<close> and \<^verbatim>\<open>reject\<close> are those that the first settlement of the probe asks for,
  and they are the same as when every later event of the process is left out: no later
  process error or exit settles the promise.
\<close>

theorem stdout_first_outcome_is_probe:
  assumes "spawn bin [''--port='' @ show_nat prt] = Spawned program"
    and "\<not> list_ex meaningful pre"
  shows "\<not> isFirst (startDriverBin spawn bin prt (pre @ [StdoutData d])) \<and>
         probe (startDriverBin spawn bin prt (pre @ [StdoutData d])) =
           Waiting \<lparr>port = prt, host = ''localhost'', timeout = 3000\<rparr> \<and>
         calls (startDriverBin spawn bin prt (pre @ StdoutData d # post)) =
           probe_outcome program post \<and>
         calls (startDriverBin spawn bin prt (pre @ StdoutData d # post)) =
           calls (startDriverBin spawn bin prt (pre @ StdoutData d # filter probe_settled post))"
proof -
  let ?s0 = "run program prt pre"
  let ?s1 = "handle_event program prt ?s0 (StdoutData d)"
  note q = quiet_run [OF assms(2), of program prt]
  from q have f: "isFirst ?s0" and c0: "calls ?s0 = []" by simp_all
  note st = stdout_first_step [OF f, of program prt d]
  from st have p1: "probe ?s1 = Waiting \<lparr>port = prt, host = ''localhost'', timeout = 3000\<rparr>"
    and g1: "\<not> isFirst ?s1" by simp_all
  from st c0 have c1: "calls ?s1 = []" by simp
  have r: "\<And>tl. run program prt (pre @ StdoutData d # tl) =
      foldl (handle_event program prt) ?s1 tl"
    by (simp add: run_def)
  have o: "\<And>tl. calls (run program prt (pre @ StdoutData d # tl)) = probe_outcome program tl"
    using waiting_outcome [OF p1 g1 c1, of program prt] r by simp
  have s1: "run program prt (pre @ [StdoutData d]) = ?s1" by (simp add: run_def)
  from assms(1) s1 p1 g1 o [of post] o [of "filter probe_settled post"] show ?thesis
    by (simp add: startDriverBin_def probe_outcome_filter)
qed

text \<open>An instance: a process error and an exit after the chunk, then the probe connects.\<close>

theorem stdout_first_outcome_is_probe_witness:
  "spawned 7 ''chromedriver'' [''--port='' @ show_nat 4445] = Spawned 7 \<and>
   \<not> list_ex meaningful [StderrData ''note''] \<and>
   calls (startDriverBin (spawned 7) ''chromedriver'' 4445
     ([StderrData ''note''] @ StdoutData ''Starting'' #
        [ProcError (Foreign ''EPIPE''), Exit (Some 1), WaitPortFulfilled True])) = [Resolve 7] \<and>
   calls (startDriverBin (spawned 7) ''chromedriver'' 4445
     ([StderrData ''note''] @ StdoutData ''Starting'' #
        [ProcError (Foreign ''EPIPE''), Exit (Some 1), WaitPortFulfilled True])) =
   calls (startDriverBin (spawned 7) ''chromedriver'' 4445
     ([StderrData ''note''] @ StdoutData ''Starting'' # [WaitPortFulfilled True]))"
proof -
  have a: "spawned 7 ''chromedriver'' [''--port='' @ show_nat 4445] = Spawned 7"
    by (simp add: spawned_def)
  have b: "\<not> list_ex meaningful [StderrData ''note'']" by simp
  from stdout_first_outcome_is_probe
    [where spawn = "spawned 7" and bin = "''chromedriver''" and prt = 4445 and d = "''Starting''"
      and post = "[ProcError (Foreign ''EPIPE''), Exit (Some 1), WaitPortFulfilled True]", OF a b] a b
  show ?thesis by auto
qed

section \<open>Signals after the guard is cleared\<close>

text \<open>
  Claim C5 says that every signal after the guard is cleared has no effect on the state of
  the routine. The handler of standard error has no guard, and the handler of standard
  output appends before it reads the guard: a chunk that arrives after an exit with code
  zero has settled the promise still changes the buffer.
\<close>

theorem late_stderr_chunk_changes_buffer:
  "stderr (startDriverBin (spawned 7) ''chromedriver'' 4445
      [Exit (Some 0), StderrData ''late'']) = ''late'' \<and>
   stderr (startDriverBin (spawned 7) ''chromedriver'' 4445 [Exit (Some 0)]) = [] \<and>
   \<not> isFirst (startDriverBin (spawned 7) ''chromedriver'' 4445 [Exit (Some 0)]) \<and>
   startDriverBin (spawned 7) ''chromedriver'' 4445 [Exit (Some 0), StderrData ''late''] \<noteq>
   startDriverBin (spawned 7) ''chromedriver'' 4445 [Exit (Some 0)]"
proof -
  have a: "stderr (startDriverBin (spawned 7) ''chromedriver'' 4445
      [Exit (Some 0), StderrData ''late'']) = ''late''"
    by (simp add: startDriverBin_def spawned_def run_def initial_def handler_defs Let_def indexOf_def)
  have b: "stderr (startDriverBin (spawned 7) ''chromedriver'' 4445 [Exit (Some 0)]) = []"
    by (simp add: startDriverBin_def spawned_def run_def initial_def handler_defs Let_def indexOf_def)
  have c: "\<not> isFirst (startDriverBin (spawned 7) ''chromedriver'' 4445 [Exit (Some 0)])"
    by (simp add: startDriverBin_def spawned_def run_def initial_def handler_defs Let_def indexOf_def)
  from a b have "stderr (startDriverBin (spawned 7) ''chromedriver'' 4445
      [Exit (Some 0), StderrData ''late'']) \<noteq>
    stderr (startDriverBin (spawned 7) ''chromedriver'' 4445 [Exit (Some 0)])" by simp
  then have "startDriverBin (spawned 7) ''chromedriver'' 4445 [Exit (Some 0), StderrData ''late''] \<noteq>
    startDriverBin (spawned 7) ''chromedriver'' 4445 [Exit (Some 0)]" by metis
  with a b c show ?thesis by simp
qed

text \<open>
  Claim C5, amended. Once the guard is cleared, a signal of the four observed sources leaves
  the guard, the probe and the calls of \<^verbatim>\<open>resolve\<close> and \<^verbatim>\<open>reject\<close> as they are, so it has no
  effect on the outcome, and an exit signal changes nothing at all. A chunk of either
  stream is still appended to the buffer, and every signal but the exit still writes one
  line to the log.
\<close>

theorem signals_after_guard_cleared:
  assumes "\<not> isFirst s" and "from_process ev"
  shows "isFirst (handle_event program prt s ev) = isFirst s \<and>
         probe (handle_event program prt s ev) = probe s \<and>
         calls (handle_event program prt s ev) = calls s \<and>
         stderr (handle_event program prt s ev) = stderr s @ chunk_text ev \<and>
         length (console (handle_event program prt s ev)) =
           length (console s) + (case ev of Exit c \<Rightarrow> 0 | _ \<Rightarrow> 1) \<and>
         handle_event program prt s (Exit code) = s"
  using assms by (cases ev) (simp_all add: handler_defs Let_def)

text \<open>An instance: a chunk on standard output after the promise was resolved.\<close>

theorem signals_after_guard_cleared_witness:
  "\<not> isFirst (initial\<lparr>isFirst := False, calls := [Resolve 7]\<rparr>) \<and>
   from_process (StdoutData ''more'') \<and>
   calls (handle_event 7 4445 (initial\<lparr>isFirst := False, calls := [Resolve 7]\<rparr>) (StdoutData ''more'')) =
     [Resolve 7] \<and>
   stderr (handle_event 7 4445 (initial\<lparr>isFirst := False, calls := [Resolve 7]\<rparr>) (StdoutData ''more'')) =
     ''more''"
proof -
  have a: "\<not> isFirst (initial\<lparr>isFirst := False, calls := [Resolve 7]\<rparr>)" by simp
  have b: "from_process (StdoutData ''more'')" by simp
  from signals_after_guard_cleared [OF a b, of 7 4445 "Some 0"] a b show ?thesis
    by (simp add: initial_def)
qed

section \<open>The buffer and the exit with code zero\<close>

lemma buffer_step:
  "stderr (handle_event program prt s ev) = stderr s @ chunk_text ev"
  by (cases ev; cases "probe s") (simp_all add: handler_defs Let_def)

lemma buffer_foldl:
  "stderr (foldl (handle_event program prt) s evs) = stderr s @ concat (map chunk_text evs)"
  by (induction evs arbitrary: s) (simp_all add: buffer_step)

lemma buffer_run: "stderr (run program prt evs) = concat (map chunk_text evs)"
  by (simp add: run_def buffer_foldl initial_def)

lemma meaningful_stdout: "\<not> list_ex meaningful evs \<Longrightarrow> \<not> list_ex is_stdout evs"
proof (induction evs)
  case Nil
  then show ?case by simp
next
  case (Cons ev evs)
  then show ?case by (cases ev) simp_all
qed

text \<open>
  Claim C9 concludes, from the shared buffer, that a process which writes a chunk beginning
  with \<^verbatim>\<open>Error:\<close> on standard output only and exits with code zero is rejected. The chunk
  on standard output clears the guard, so the exit handler returns before it looks at the
  buffer: with the marker at position 0 of the buffer and exit code zero, the exit makes
  no call of \<^verbatim>\<open>reject\<close>, and the routine resolves as soon as the probe connects.
\<close>

theorem stdout_error_marker_resolves:
  "prefix ''Error:'' (stderr (startDriverBin (spawned 7) ''chromedriver'' 4445
      [StdoutData ''Error: boom'', Exit (Some 0)])) \<and>
   calls (startDriverBin (spawned 7) ''chromedriver'' 4445
      [StdoutData ''Error: boom'', Exit (Some 0)]) = [] \<and>
   promise_of (calls (startDriverBin (spawned 7) ''chromedriver'' 4445
      [StdoutData ''Error: boom'', Exit (Some 0), WaitPortFulfilled True])) = Fulfilled 7"
  by (simp add: startDriverBin_def spawned_def run_def initial_def handler_defs Let_def)

text \<open>
  Claim C9, amended. The buffer is the concatenation, in arrival order, of all chunks of
  standard output and of standard error. The exit handler makes a call, and so inspects
  the buffer, only when no chunk of standard output has arrived before the exit; the
  buffer then holds the chunks of standard error alone.
\<close>

theorem buffer_holds_all_chunks:
  assumes "spawn bin [''--port='' @ show_nat prt] = Spawned program"
  shows "stderr (startDriverBin spawn bin prt evs) = concat (map chunk_text evs) \<and>
         (calls (startDriverBin spawn bin prt (pre @ [Exit code])) \<noteq>
            calls (startDriverBin spawn bin prt pre) \<longrightarrow>
          \<not> list_ex is_stdout pre \<and>
          stderr (startDriverBin spawn bin prt pre) = concat (map stderr_text pre))"
proof -
  have "\<not> list_ex is_stdout pre \<and> stderr (run program prt pre) = concat (map stderr_text pre)"
    if ch: "calls (run program prt (pre @ [Exit code])) \<noteq> calls (run program prt pre)"
  proof -
    have "isFirst (run program prt pre)"
    proof (rule ccontr)
      assume "\<not> isFirst (run program prt pre)"
      then have "handle_event program prt (run program prt pre) (Exit code) = run program prt pre"
        by (simp add: on_exit_def)
      with ch show False by (simp add: run_snoc)
    qed
    then have nm: "\<not> list_ex meaningful pre" by (rule guard_run)
    from quiet_run [OF nm, of program prt] meaningful_stdout [OF nm] show ?thesis by simp
  qed
  with assms show ?thesis by (simp add: startDriverBin_def buffer_run)
qed

text \<open>An instance: interleaved chunks, and an exit that does inspect the buffer.\<close>

theorem buffer_holds_all_chunks_witness:
  "spawned 7 ''chromedriver'' [''--port='' @ show_nat 4445] = Spawned 7 \<and>
   stderr (startDriverBin (spawned 7) ''chromedriver'' 4445
     [StderrData ''ab'', StdoutData ''cd'', StderrData ''ef'']) = ''abcdef'' \<and>
   calls (startDriverBin (spawned 7) ''chromedriver'' 4445
     ([StderrData ''Error: x''] @ [Exit (Some 0)])) \<noteq>
   calls (startDriverBin (spawned 7) ''chromedriver'' 4445 [StderrData ''Error: x'']) \<and>
   \<not> list_ex is_stdout [StderrData ''Error: x''] \<and>
   stderr (startDriverBin (spawned 7) ''chromedriver'' 4445 [StderrData ''Error: x'']) =
     ''Error: x''"
proof -
  have a: "spawned 7 ''chromedriver'' [''--port='' @ show_nat 4445] = Spawned 7"
    by (simp add: spawned_def)
  have b: "calls (startDriverBin (spawned 7) ''chromedriver'' 4445
     ([StderrData ''Error: x''] @ [Exit (Some 0)])) \<noteq>
   calls (startDriverBin (spawned 7) ''chromedriver'' 4445 [StderrData ''Error: x''])"
    by (simp add: startDriverBin_def spawned_def run_def initial_def handler_defs Let_def indexOf_def)
  from buffer_holds_all_chunks
    [where spawn = "spawned 7" and bin = "''chromedriver''" and prt = 4445 and pre = "[StderrData ''Error: x'']" and code = "Some 0"
      and evs = "[StderrData ''ab'', StdoutData ''cd'', StderrData ''ef'']", OF a] a b
  show ?thesis by simp
qed

section \<open>Settling at most once\<close>

lemma waiting_unsettled:
  assumes "probe s = Waiting p" "\<not> isFirst s"
  shows "unsettled (foldl (handle_event program prt) s evs) = (\<not> list_ex probe_settled evs)"
  using assms
proof (induction evs arbitrary: s)
  case Nil
  then show ?case by (simp add: unsettled_def)
next
  case (Cons ev evs)
  show ?case
  proof (cases "probe_settled ev")
    case True
    with Cons.prems have "\<not> unsettled (handle_event program prt s ev)"
      by (cases ev) (auto simp: handler_defs unsettled_def)
    from settled_foldl [OF this, of program prt evs] True show ?thesis by simp
  next
    case False
    note st = waiting_step [OF Cons.prems(1) Cons.prems(2) False, of program prt]
    from st have a: "probe (handle_event program prt s ev) = Waiting p"
      and b: "\<not> isFirst (handle_event program prt s ev)" by simp_all
    from Cons.IH [OF a b] False show ?thesis by simp
  qed
qed

lemma first_unsettled:
  assumes "isFirst s" "probe s = NotStarted"
  shows "unsettled (foldl (handle_event program prt) s evs) = (\<not> settles evs)"
  using assms
proof (induction evs arbitrary: s)
  case Nil
  then show ?case by (simp add: unsettled_def)
next
  case (Cons ev evs)
  show ?case
  proof (cases "meaningful ev")
    case False
    note st = quiet_step [OF Cons.prems(1) Cons.prems(2) False, of program prt]
    from st have a: "isFirst (handle_event program prt s ev)"
      and b: "probe (handle_event program prt s ev) = NotStarted" by simp_all
    from False have "settles (ev # evs) = settles evs" by (cases ev) simp_all
    with Cons.IH [OF a b] show ?thesis by simp
  next
    case True
    show ?thesis
    proof (cases "is_stdout ev")
      case True
      then obtain d where ev: "ev = StdoutData d" by (cases ev) simp_all
      note st = stdout_first_step [OF Cons.prems(1), of program prt d]
      from st have a: "probe (handle_event program prt s (StdoutData d)) =
          Waiting \<lparr>port = prt, host = ''localhost'', timeout = 3000\<rparr>"
        and b: "\<not> isFirst (handle_event program prt s (StdoutData d))" by simp_all
      from waiting_unsettled [OF a b, of program prt evs] ev show ?thesis by simp
    next
      case False
      with True Cons.prems have "\<not> unsettled (handle_event program prt s ev)"
        by (cases ev) (auto simp: handler_defs unsettled_def Let_def)
      from settled_foldl [OF this, of program prt evs]
      have "\<not> unsettled (foldl (handle_event program prt) s (ev # evs))" by simp
      moreover from True False have "settles (ev # evs)" by (cases ev) simp_all
      ultimately show ?thesis by simp
    qed
  qed
qed

lemma run_unsettled: "unsettled (run program prt evs) = (\<not> settles evs)"
  using first_unsettled [of initial program prt evs] by (simp add: run_def initial_def)

lemma run_calls_length:
  "length (calls (run program prt evs)) = (if settles evs then 1 else 0)"
  using consistent_run [of program prt evs] run_unsettled [of program prt evs]
  by (simp add: consistent_def split: if_splits)

lemma run_calls_frozen:
  assumes "calls (run program prt evs) \<noteq> []"
  shows "calls (run program prt (evs @ later)) = calls (run program prt evs)"
proof -
  from assms consistent_run [of program prt evs] have "\<not> unsettled (run program prt evs)"
    by (auto simp: consistent_def)
  from settled_foldl [OF this, of program prt later] show ?thesis
    by (simp add: run_append)
qed

text \<open>
  Claim C1 says that the promise settles exactly once for every interleaving. A driver that
  writes on standard error only and keeps running gives no meaningful signal: neither
  \<^verbatim>\<open>resolve\<close> nor \<^verbatim>\<open>reject\<close> is called and the promise stays pending.
\<close>

theorem silent_driver_never_settles:
  "calls (startDriverBin (spawned 7) ''chromedriver'' 4445
      [StderrData ''DevTools listening'', StderrData ''on ws://127.0.0.1'']) = [] \<and>
   promise_of (calls (startDriverBin (spawned 7) ''chromedriver'' 4445
      [StderrData ''DevTools listening'', StderrData ''on ws://127.0.0.1''])) = Pending"
  by (simp add: startDriverBin_def spawned_def run_def initial_def handler_defs Let_def)

text \<open>
  Claim C1, amended. For every invocation and every sequence of events, \<^verbatim>\<open>resolve\<close> and
  \<^verbatim>\<open>reject\<close> are called at most once in total, so the promise settles at most once. The
  call is made exactly when the set-up in the \<^verbatim>\<open>try\<close> block throws, or the first
  meaningful signal is a process error or an exit, or it is a chunk on standard output and
  the probe it starts has settled. Once a call is made, no later event adds another.
\<close>

theorem startDriverBin_settles_at_most_once:
  "length (calls (startDriverBin spawn bin prt evs)) \<le> 1 \<and>
   (length (calls (startDriverBin spawn bin prt evs)) = 1 \<longleftrightarrow>
      (case spawn bin [''--port='' @ show_nat prt] of
         Spawned program \<Rightarrow> settles evs
       | SpawnThrows err \<Rightarrow> True)) \<and>
   (calls (startDriverBin spawn bin prt evs) \<noteq> [] \<longrightarrow>
      calls (startDriverBin spawn bin prt (evs @ later)) = calls (startDriverBin spawn bin prt evs))"
proof (cases "spawn bin [''--port='' @ show_nat prt]")
  case (Spawned program)
  with run_calls_length [of program prt evs] run_calls_frozen [of program prt evs later]
  show ?thesis by (simp add: startDriverBin_def)
next
  case (SpawnThrows err)
  then show ?thesis by (simp add: startDriverBin_def reject_def console_log_def initial_def)
qed

text \<open>An instance: the probe connects, and a late error, exit and probe event follow.\<close>

theorem startDriverBin_settles_at_most_once_witness:
  "length (calls (startDriverBin (spawned 7) ''chromedriver'' 4445
      [StdoutData ''Starting'', Exit (Some 1), WaitPortFulfilled True])) = 1 \<and>
   calls (startDriverBin (spawned 7) ''chromedriver'' 4445
      ([StdoutData ''Starting'', Exit (Some 1), WaitPortFulfilled True] @
       [ProcError (Foreign ''EPIPE''), Exit None, WaitPortRejected (Foreign ''late'')])) =
   calls (startDriverBin (spawned 7) ''chromedriver'' 4445
      [StdoutData ''Starting'', Exit (Some 1), WaitPortFulfilled True])"
proof -
  note t = startDriverBin_settles_at_most_once [where spawn = "spawned 7"
      and bin = "''chromedriver''" and prt = 4445
      and evs = "[StdoutData ''Starting'', Exit (Some 1), WaitPortFulfilled True]"
      and later = "[ProcError (Foreign ''EPIPE''), Exit None, WaitPortRejected (Foreign ''late'')]"]
  from t have one: "length (calls (startDriverBin (spawned 7) ''chromedriver'' 4445
      [StdoutData ''Starting'', Exit (Some 1), WaitPortFulfilled True])) = 1" by (simp add: spawned_def)
  then have "calls (startDriverBin (spawned 7) ''chromedriver'' 4445
      [StdoutData ''Starting'', Exit (Some 1), WaitPortFulfilled True]) \<noteq> []" by auto
  with t one show ?thesis by blast
qed

section \<open>The causes of a rejection\<close>

lemma show_nat_small: "n < 10 \<Longrightarrow> show_nat n = [digit n]"
  by (simp add: show_nat.simps)

lemma first_call_split:
  "calls (run program prt evs) \<noteq> [] \<Longrightarrow>
     \<exists>pre ev post. evs = pre @ ev # post \<and> calls (run program prt pre) = [] \<and>
       calls (run program prt (pre @ [ev])) = calls (run program prt evs)"
proof (induction evs rule: rev_induct)
  case Nil
  then show ?case by (simp add: run_def initial_def)
next
  case (snoc x xs)
  show ?case
  proof (cases "calls (run program prt xs) = []")
    case True
    then have "xs @ [x] = xs @ x # [] \<and> calls (run program prt xs) = [] \<and>
        calls (run program prt (xs @ [x])) = calls (run program prt (xs @ [x]))" by simp
    then show ?thesis by blast
  next
    case False
    from snoc.IH [OF False] obtain pre ev post where
      d: "xs = pre @ ev # post" and e: "calls (run program prt pre) = []"
      and f: "calls (run program prt (pre @ [ev])) = calls (run program prt xs)" by blast
    from run_calls_frozen [OF False, of "[x]"] f
    have "calls (run program prt (pre @ [ev])) = calls (run program prt (xs @ [x]))" by simp
    moreover from d have "xs @ [x] = pre @ ev # (post @ [x])" by simp
    ultimately show ?thesis using e by blast
  qed
qed

lemma reject_step_cause:
  assumes "consistent program prt s" "calls s = []"
    and "calls (handle_event program prt s ev) = [Reject e]"
  shows "exactly_one [exit_not_zero ev e, error_text s ev e, spawn_error ev e,
           probe_rejected prt s ev e]"
proof (cases ev)
  case (Exit code)
  with assms show ?thesis
    by (auto simp: exactly_one_def exit_not_zero_def error_text_def spawn_error_def
        probe_rejected_def handler_defs Let_def indexOf_zero split: if_splits)
next
  case (WaitPortRejected err)
  with assms show ?thesis
    by (cases "probe s")
       (auto simp: exactly_one_def exit_not_zero_def error_text_def spawn_error_def
        probe_rejected_def handler_defs consistent_def)
next
  case (ProcError err)
  with assms show ?thesis
    by (auto simp: exactly_one_def exit_not_zero_def error_text_def spawn_error_def
        probe_rejected_def handler_defs Let_def split: if_splits)
next
  case (StdoutData d)
  with assms show ?thesis by (auto simp: handler_defs Let_def split: if_splits)
next
  case (StderrData d)
  with assms show ?thesis by (auto simp: handler_defs Let_def)
next
  case Close
  with assms show ?thesis by (auto simp: handler_defs)
next
  case (WaitPortFulfilled opn)
  with assms show ?thesis by (cases "probe s") (auto simp: handler_defs)
qed

text \<open>
  Claim C4 names four causes and says that no other cause produces a rejection. The promise
  of the probe is rejected for reasons other than the timeout, and the routine then
  rejects: here the probe fails to resolve the host. A process ended by a signal has no
  exit code, and the routine rejects as well. In both runs the event that makes the call
  is none of the four named causes.
\<close>

theorem rejection_outside_named_causes:
  "calls (startDriverBin (spawned 7) ''chromedriver'' 4445
      [StdoutData ''Starting'', WaitPortRejected (Foreign ''ConnectionError: ENOTFOUND'')]) =
     [Reject (NewError ''Failed to start ChromeDriver: ConnectionError: ENOTFOUND'')] \<and>
   \<not> nonzero_exit (WaitPortRejected (Foreign ''ConnectionError: ENOTFOUND''))
       (NewError ''Failed to start ChromeDriver: ConnectionError: ENOTFOUND'') \<and>
   \<not> error_text (run 7 4445 [StdoutData ''Starting''])
       (WaitPortRejected (Foreign ''ConnectionError: ENOTFOUND''))
       (NewError ''Failed to start ChromeDriver: ConnectionError: ENOTFOUND'') \<and>
   \<not> spawn_error (WaitPortRejected (Foreign ''ConnectionError: ENOTFOUND''))
       (NewError ''Failed to start ChromeDriver: ConnectionError: ENOTFOUND'') \<and>
   \<not> port_timeout 4445 (run 7 4445 [StdoutData ''Starting''])
       (WaitPortRejected (Foreign ''ConnectionError: ENOTFOUND'')) \<and>
   calls (startDriverBin (spawned 7) ''chromedriver'' 4445 [Exit None]) =
     [Reject (NewError ''Exit code: null'')] \<and>
   \<not> nonzero_exit (Exit None) (NewError ''Exit code: null'') \<and>
   \<not> error_text (run 7 4445 []) (Exit None) (NewError ''Exit code: null'') \<and>
   \<not> spawn_error (Exit None) (NewError ''Exit code: null'') \<and>
   \<not> port_timeout 4445 (run 7 4445 []) (Exit None)"
  by (simp add: startDriverBin_def spawned_def run_def initial_def handler_defs Let_def
      show_code_def nonzero_exit_def error_text_def spawn_error_def port_timeout_def)

text \<open>
  Claim C4, amended. A call of \<^verbatim>\<open>reject\<close> is the only call the invocation makes, and it
  has one of four causes. Either the set-up threw the error, which is a spawn error; or one
  event made the call, and exactly one of these holds of it: it is an exit whose code is
  not zero, a number or \<^verbatim>\<open>null\<close>, and the message names the code; it is an exit with code
  zero, the buffer begins with \<^verbatim>\<open>Error:\<close> and the message is the buffer; it is a process
  error event and the error is its payload; it is the rejection of the promise of the
  probe, which was started with a timeout of 3000 ms, and the message names the probe's
  error.
\<close>

theorem rejection_causes:
  assumes "Reject e \<in> set (calls (startDriverBin spawn bin prt evs))"
  shows "calls (startDriverBin spawn bin prt evs) = [Reject e] \<and>
         (spawn bin [''--port='' @ show_nat prt] = SpawnThrows e \<or>
          (\<exists>program pre ev post.
             spawn bin [''--port='' @ show_nat prt] = Spawned program \<and>
             evs = pre @ ev # post \<and>
             calls (run program prt pre) = [] \<and>
             calls (run program prt (pre @ [ev])) = [Reject e] \<and>
             exactly_one
               [exit_not_zero ev e,
                error_text (run program prt pre) ev e,
                spawn_error ev e,
                probe_rejected prt (run program prt pre) ev e]))"
proof (cases "spawn bin [''--port='' @ show_nat prt]")
  case (SpawnThrows err)
  with assms show ?thesis
    by (simp add: startDriverBin_def reject_def console_log_def initial_def)
next
  case (Spawned program)
  with assms have mem: "Reject e \<in> set (calls (run program prt evs))"
    by (simp add: startDriverBin_def)
  have "length (calls (run program prt evs)) \<le> 1"
    by (simp add: run_calls_length)
  with mem have all: "calls (run program prt evs) = [Reject e]"
    by (cases "calls (run program prt evs)") auto
  then have "calls (run program prt evs) \<noteq> []" by simp
  from first_call_split [OF this] all obtain pre ev post where
    d: "evs = pre @ ev # post" and n: "calls (run program prt pre) = []"
    and f: "calls (run program prt (pre @ [ev])) = [Reject e]" by auto
  from f have "calls (handle_event program prt (run program prt pre) ev) = [Reject e]"
    by (simp add: run_snoc)
  from reject_step_cause [OF consistent_run n this]
  have "exactly_one
     [exit_not_zero ev e, error_text (run program prt pre) ev e, spawn_error ev e,
      probe_rejected prt (run program prt pre) ev e]" .
  with Spawned d n f all show ?thesis
    by (auto simp: startDriverBin_def)
qed

text \<open>An instance: an exit with code 3 after a chunk on standard error.\<close>

theorem rejection_causes_witness:
  "Reject (NewError ''Exit code: 3'') \<in>
     set (calls (startDriverBin (spawned 7) ''chromedriver'' 4445
            [StderrData ''x'', Exit (Some 3)])) \<and>
   calls (startDriverBin (spawned 7) ''chromedriver'' 4445
            [StderrData ''x'', Exit (Some 3)]) = [Reject (NewError ''Exit code: 3'')]"
proof -
  have h: "Reject (NewError ''Exit code: 3'') \<in>
     set (calls (startDriverBin (spawned 7) ''chromedriver'' 4445
            [StderrData ''x'', Exit (Some 3)]))"
    by (simp add: startDriverBin_def spawned_def run_def initial_def handler_defs Let_def
        show_code_def show_int_def show_nat_small digit_def)
  from h rejection_causes [OF h] show ?thesis by blast
qed

section \<open>The handler of the channel and a failing driver\<close>

text \<open>
  Claim C6 says that a rejection of \<^verbatim>\<open>startDriverBin\<close> inside the handler is caught and
  logged there. The \<^verbatim>\<open>await\<close> of \<^verbatim>\<open>startDriverBin\<close> stands before the \<^verbatim>\<open>try\<close> block: when
  the driver exits with code 1, the handler logs nothing and the promise it returns is
  rejected with the error of the driver.
\<close>

theorem driver_rejection_escapes_handler:
  "returned (ipc_example (spawned 7) ''resources/chromedriver'' [Exit (Some 1)]
      (Fulfilled 1) (Fulfilled ''Mozilla/5.0'')) = Rejected (NewError ''Exit code: 1'') \<and>
   ipc_console (ipc_example (spawned 7) ''resources/chromedriver'' [Exit (Some 1)]
      (Fulfilled 1) (Fulfilled ''Mozilla/5.0'')) = []"
  by (simp add: ipc_example_def startDriverBin_def spawned_def run_def initial_def handler_defs Let_def
      show_code_def show_int_def show_nat_small digit_def)

text \<open>
  Claim C7 says that every inbound message is answered by exactly one reply \<^verbatim>\<open>pong\<close>. When
  the driver exits with code 1 the handler never reaches \<^verbatim>\<open>event.reply\<close>: no reply is
  sent.
\<close>

theorem no_reply_when_driver_rejects:
  "replies (ipc_example (spawned 7) ''resources/chromedriver'' [Exit (Some 1)]
      (Fulfilled 1) (Fulfilled ''Mozilla/5.0'')) = []"
  by (simp add: ipc_example_def startDriverBin_def spawned_def run_def initial_def handler_defs Let_def
      show_code_def show_int_def show_nat_small digit_def)

text \<open>
  What the handler does once the driver has started: it replies once when the block of the
  automation library finishes, and a failure of that block is logged before the reply.
\<close>

lemma reply_when_driver_resolves:
  assumes "promise_of (calls (startDriverBin spawn bin 4445 evs)) = Fulfilled h"
    and "webdriver_block remote executeAsync \<noteq> Pending"
  shows "replies (ipc_example spawn bin evs remote executeAsync) =
           [(''ipc-example'', ''pong'')]"
  using assms by (simp add: ipc_example_def split: promise.splits)

lemma webdriver_failure_is_logged:
  assumes "promise_of (calls (startDriverBin spawn bin 4445 evs)) = Fulfilled h"
    and "webdriver_block remote executeAsync = Rejected e"
  shows "ipc_example spawn bin evs remote executeAsync =
           \<lparr>replies = [(''ipc-example'', ''pong'')],
            ipc_console = [ConsoleLog [''ERROR IN WEBDRIVER'', toString e]],
            returned = Fulfilled ()\<rparr>"
  using assms by (simp add: ipc_example_def)

end
